theory Spec2Isabelle
  imports Complex_Main "HOL-Library.Multiset"
begin

section \<open>Data model\<close>

text \<open>
  A Python exception value: the name of its class and its string form \<open>str(e)\<close>.
  Every exception of this model is an instance of \<open>Exception\<close>, which is what the
  handler of \<open>check_host\<close> catches.
\<close>

datatype exn = Exception (exn_class: string) (exn_str: string)

text \<open>
  A naive \<open>datetime\<close>. The calendar date is kept as its proleptic Gregorian ordinal
  (\<open>toordinal()\<close>, day 1 is 0001-01-01), which is all that subtraction reads of it.
\<close>

record datetime =
  ordinal :: int
  hour :: int
  minute :: int
  second :: int
  microsecond :: int

record timedelta =
  days :: int
  seconds :: int
  microseconds :: int

text \<open>
  \<open>timedelta(days, seconds, microseconds)\<close> on integer arguments: the constructor's
  normalisation, step by step. Python's \<open>divmod\<close> by a positive number is \<open>div\<close> and
  \<open>mod\<close> on \<open>int\<close> (both floor).
\<close>

definition timedelta_new :: "int \<Rightarrow> int \<Rightarrow> int \<Rightarrow> timedelta" where
  "timedelta_new days0 seconds0 microseconds0 =
     (let d = days0;
          days1 = seconds0 div (24 * 3600);
          seconds1 = seconds0 mod (24 * 3600);
          d = d + days1;
          s = seconds1;
          seconds2 = microseconds0 div 1000000;
          microseconds2 = microseconds0 mod 1000000;
          days2 = seconds2 div (24 * 3600);
          seconds3 = seconds2 mod (24 * 3600);
          d = d + days2;
          s = s + seconds3;
          seconds4 = microseconds2 div 1000000;
          us = microseconds2 mod 1000000;
          s = s + seconds4;
          days3 = s div (24 * 3600);
          s = s mod (24 * 3600);
          d = d + days3
      in \<lparr>days = d, seconds = s, microseconds = us\<rparr>)"

text \<open>\<open>datetime.__sub__\<close> on two naive datetimes.\<close>

definition datetime_sub :: "datetime \<Rightarrow> datetime \<Rightarrow> timedelta" where
  "datetime_sub self other =
     (let days1 = ordinal self;
          days2 = ordinal other;
          secs1 = second self + minute self * 60 + hour self * 3600;
          secs2 = second other + minute other * 60 + hour other * 3600
      in timedelta_new (days1 - days2) (secs1 - secs2) (microsecond self - microsecond other))"

text \<open>The instant of a datetime as microseconds since the start of day 0.\<close>

definition total_us :: "datetime \<Rightarrow> int" where
  "total_us t =
     ((ordinal t * 86400 + hour t * 3600 + minute t * 60 + second t) * 1000000) + microsecond t"

definition us_per_day :: int where
  "us_per_day = 86400000000"

text \<open>
  A connected TCP socket: the address it was opened to and the timeout set on it by
  \<open>socket.create_connection\<close>, which bounds every later blocking operation on it.
\<close>

record sock =
  sock_host :: string
  sock_port :: int
  sock_timeout :: rat

text \<open>
  What a single probe sees of the outside: the network, the certificate parser and the
  clock.
  \<^item> \<open>create_connection h p t\<close> is \<open>socket.create_connection((h, p), timeout=t)\<close>:
    \<open>Some e\<close> when it raises \<open>e\<close>, \<open>None\<close> when the connection is made;
  \<^item> \<open>wrap_socket s name\<close> is the handshake of
    \<open>context.wrap_socket(s, server_hostname=name)\<close> followed by \<open>getpeercert()\<close>: it
    raises, or gives the dictionary of the peer certificate;
  \<^item> \<open>strptime text\<close> is \<open>datetime.strptime(text, "%b %d %H:%M:%S %Y %Z")\<close>;
  \<^item> \<open>utcnow\<close> is the reading of \<open>datetime.utcnow()\<close>.
\<close>

record world =
  create_connection :: "string \<Rightarrow> int \<Rightarrow> rat \<Rightarrow> exn option"
  wrap_socket :: "sock \<Rightarrow> string \<Rightarrow> exn + (string \<rightharpoonup> string)"
  strptime :: "string \<Rightarrow> exn + datetime"
  utcnow :: datetime

text \<open>The dictionary returned by \<open>check_host\<close>, one field per key.\<close>

record outcome =
  host :: string
  port :: int
  expiry :: "datetime option"
  days_left :: "int option"
  status :: string
  error :: string

section \<open>Certificate inspection\<close>

text \<open>\<open>str(KeyError('notAfter'))\<close> is the \<open>repr\<close> of the key.\<close>

definition key_error :: "string \<Rightarrow> exn" where
  "key_error k = Exception ''KeyError'' ([CHR 0x27] @ k @ [CHR 0x27])"

text \<open>
  \<open>fetch_cert_expiry(host, port, timeout=5.0)\<close>. The optional argument is \<open>None\<close> when
  the caller leaves it out.
\<close>

definition fetch_cert_expiry :: "world \<Rightarrow> string \<Rightarrow> int \<Rightarrow> rat option \<Rightarrow> exn + datetime" where
  "fetch_cert_expiry w h p timeout_arg =
     (let timeout = (case timeout_arg of None \<Rightarrow> 5 | Some t \<Rightarrow> t)
      in case create_connection w h p timeout of
           Some e \<Rightarrow> Inl e
         | None \<Rightarrow>
             (case wrap_socket w \<lparr>sock_host = h, sock_port = p, sock_timeout = timeout\<rparr> h of
                Inl e \<Rightarrow> Inl e
              | Inr cert \<Rightarrow>
                  (case cert ''notAfter'' of
                     None \<Rightarrow> Inl (key_error ''notAfter'')
                   | Some text \<Rightarrow> strptime w text)))"

definition check_host :: "world \<Rightarrow> string \<Rightarrow> int \<Rightarrow> int \<Rightarrow> outcome" where
  "check_host w h p warn_days =
     (case fetch_cert_expiry w h p None of
        Inr e \<Rightarrow>
          (let d = days (datetime_sub e (utcnow w));
               st = (if d > warn_days then ''OK'' else ''WARNING'')
           in \<lparr>host = h, port = p, expiry = Some e, days_left = Some d, status = st,
               error = ''''\<rparr>)
      | Inl ex \<Rightarrow>
          \<lparr>host = h, port = p, expiry = None, days_left = None, status = ''ERROR'',
           error = exn_str ex\<rparr>)"

section \<open>The progress bar\<close>

text \<open>
  The widget made by \<open>st.progress(value)\<close>: the value it shows, and the values passed to
  its \<open>progress\<close> method so far, oldest first. The quotient \<open>completed / total\<close> of two
  Python integers is the double nearest to the exact quotient; the model keeps the exact
  quotient, as a rational number.
\<close>

record progress_bar =
  shown :: rat
  emitted :: "rat list"

definition st_progress :: "rat \<Rightarrow> progress_bar" where
  "st_progress v = \<lparr>shown = v, emitted = []\<rparr>"

definition progress_update :: "progress_bar \<Rightarrow> rat \<Rightarrow> progress_bar" where
  "progress_update bar v = \<lparr>shown = v, emitted = emitted bar @ [v]\<rparr>"

section \<open>Running a batch\<close>

text \<open>
  A future of the executor: its identity (the position of its submission) and the result
  that \<open>fut.result()\<close> gives once the worker has run \<open>check_host\<close>.
\<close>

record future =
  fut_id :: nat
  fut_result :: outcome

text \<open>
  \<open>as_completed(futures)\<close> yields every future once, in the order the workers finish,
  which the program does not determine. The order is a parameter: each entry of \<open>sched\<close>
  picks, among the futures still pending, the one that finishes next (entry \<open>c\<close> picks
  pending future number \<open>c mod\<close> the number pending); when \<open>sched\<close> runs out, the rest
  finish in submission order.
\<close>

fun as_completed :: "'a list \<Rightarrow> nat list \<Rightarrow> 'a list" where
  "as_completed [] sched = []"
| "as_completed (f # fs) [] = f # fs"
| "as_completed (f # fs) (c # cs) =
     (let i = c mod length (f # fs)
      in (f # fs) ! i # as_completed (take i (f # fs) @ drop (Suc i) (f # fs)) cs)"

text \<open>
  The dictionary comprehension of \<open>run_checks\<close>: one future per entry of \<open>hosts\<close>, keyed
  by the future itself, so equal host names give separate entries. Submission \<open>i\<close> runs
  in the world \<open>env i\<close>.
\<close>

definition submit_all :: "(nat \<Rightarrow> world) \<Rightarrow> string list \<Rightarrow> int \<Rightarrow> int \<Rightarrow> (future \<times> string) list" where
  "submit_all env hosts p warn_days =
     map (\<lambda>(i, h). (\<lparr>fut_id = i, fut_result = check_host (env i) h p warn_days\<rparr>, h))
       (enumerate 0 hosts)"

text \<open>The body of the \<open>for fut in as_completed(futures)\<close> loop, on the loop's three variables.\<close>

fun collect :: "nat \<Rightarrow> future list \<Rightarrow> outcome list \<times> nat \<times> progress_bar
    \<Rightarrow> outcome list \<times> nat \<times> progress_bar" where
  "collect total_count [] st = st"
| "collect total_count (fut # futs) (results, completed, progress) =
     collect total_count futs
       (results @ [fut_result fut], completed + 1,
        progress_update progress (of_nat (completed + 1) / of_nat total_count))"

text \<open>
  \<open>run_checks(hosts, port, warn_days, workers)\<close>, giving the rows of the data frame and
  the progress bar as the loop leaves it. \<open>ThreadPoolExecutor\<close> raises \<open>ValueError\<close> for
  \<open>max_workers <= 0\<close>, and the column lookup \<open>df['expiry']\<close> raises \<open>KeyError\<close> on the
  frame of an empty result list. The two columns added to the frame after the loop
  (\<open>expiry\<close> converted by pandas, \<open>expiry_display\<close>) are not part of the model.
\<close>

definition run_checks :: "(nat \<Rightarrow> world) \<Rightarrow> nat list \<Rightarrow> string list \<Rightarrow> int \<Rightarrow> int \<Rightarrow> int
    \<Rightarrow> exn + (outcome list \<times> progress_bar)" where
  "run_checks env sched hosts p warn_days workers =
     (if workers \<le> 0 then Inl (Exception ''ValueError'' ''max_workers must be greater than 0'')
      else
        (let futures = submit_all env hosts p warn_days;
             total_count = length futures;
             progress = st_progress 0;
             (results, completed, progress) =
               collect total_count (as_completed (map fst futures) sched) ([], 0, progress)
         in if results = [] then Inl (key_error ''expiry'') else Inr (results, progress)))"

section \<open>Preparing the host list\<close>

text \<open>
  Python strings are sequences of code points; \<open>char\<close> holds the code points below 256.
  Among them \<open>str.isspace\<close> holds of the following, and \<open>str.splitlines\<close> breaks a line
  at the following.
\<close>

definition isspace :: "char \<Rightarrow> bool" where
  "isspace c \<longleftrightarrow>
     c \<in> set [CHR 0x09, CHR 0x0A, CHR 0x0B, CHR 0x0C, CHR 0x0D, CHR 0x1C, CHR 0x1D, CHR 0x1E,
              CHR 0x1F, CHR 0x20, CHR 0x85, CHR 0xA0]"

definition islinebreak :: "char \<Rightarrow> bool" where
  "islinebreak c \<longleftrightarrow>
     c \<in> set [CHR 0x0A, CHR 0x0B, CHR 0x0C, CHR 0x0D, CHR 0x1C, CHR 0x1D, CHR 0x1E, CHR 0x85]"

definition strip :: "string \<Rightarrow> string" where
  "strip s = rev (dropWhile isspace (rev (dropWhile isspace s)))"

text \<open>Skipping one line break, a carriage return followed by a line feed being one.\<close>

fun skip_linebreak :: "string \<Rightarrow> string" where
  "skip_linebreak [] = []"
| "skip_linebreak [c] = []"
| "skip_linebreak (c # d # r) = (if c = CHR 0x0D \<and> d = CHR 0x0A then r else d # r)"

text \<open>
  \<open>str.splitlines()\<close>: while characters remain, the run up to the next line break is a
  line, and the break is skipped. A text that ends in a line break has no empty last line.
\<close>

function splitlines :: "string \<Rightarrow> string list" where
  "splitlines s =
     (if s = [] then []
      else takeWhile (\<lambda>c. \<not> islinebreak c) s
             # splitlines (skip_linebreak (dropWhile (\<lambda>c. \<not> islinebreak c) s)))"
  by pat_completeness auto
termination
proof (relation "measure length")
  show "wf (measure length)" by simp
next
  fix s :: string
  assume ne: "s \<noteq> []"
  have skip: "r \<noteq> [] \<Longrightarrow> length (skip_linebreak r) < length r" for r
    by (cases r rule: skip_linebreak.cases) auto
  let ?r = "dropWhile (\<lambda>c. \<not> islinebreak c) s"
  have "length (skip_linebreak ?r) < length s"
  proof (cases "?r = []")
    case True
    then have "length (skip_linebreak ?r) = 0"
      by (simp only: skip_linebreak.simps list.size)
    with ne show ?thesis by simp
  next
    case False
    from skip [OF False] have "length (skip_linebreak ?r) < length ?r" .
    also have "length ?r \<le> length s" by (rule length_dropWhile_le)
    finally show ?thesis .
  qed
  then show "(skip_linebreak ?r, s) \<in> measure length" by simp
qed

declare splitlines.simps [simp del]

text \<open>The comprehension \<open>[h.strip() for h in content.splitlines() if h.strip()]\<close>.\<close>

definition prepare_hosts :: "string \<Rightarrow> string list" where
  "prepare_hosts content = [strip h. h \<leftarrow> splitlines content, strip h \<noteq> []]"

text \<open>
  The host list of a submitted form: from the uploaded file (its decoded text) when there
  is one, from the text area otherwise.
\<close>

definition form_hosts :: "string option \<Rightarrow> string \<Rightarrow> string list" where
  "form_hosts file_upload hosts_input =
     (case file_upload of
        Some content \<Rightarrow> prepare_hosts content
      | None \<Rightarrow> prepare_hosts hosts_input)"

section \<open>The bucket histogram\<close>

definition bins :: "int list" where
  "bins = [-999, 0, 7, 30, 90, 365, 9999]"

definition labels :: "string list" where
  "labels = [''Expired'', ''0-7 days'', ''8-30 days'', ''31-90 days'', ''91-365 days'',
             ''>365 days'']"

text \<open>\<open>Series.fillna(v)\<close> on a column with missing entries.\<close>

definition fillna :: "int \<Rightarrow> int option list \<Rightarrow> int list" where
  "fillna v col = map (\<lambda>x. case x of None \<Rightarrow> v | Some d \<Rightarrow> d) col"

text \<open>The entry of a row in the column \<open>df['days_left'].fillna(-1)\<close>.\<close>

definition filled :: "outcome \<Rightarrow> int" where
  "filled r = (case days_left r of None \<Rightarrow> - 1 | Some d \<Rightarrow> d)"

text \<open>\<open>searchsorted(x, side='left')\<close> on a sorted array: the number of entries below \<open>x\<close>.\<close>

definition searchsorted_left :: "int list \<Rightarrow> int \<Rightarrow> nat" where
  "searchsorted_left a x = length (takeWhile (\<lambda>b. b < x) a)"

text \<open>
  \<open>pd.cut(x, bins, labels, ordered=True)\<close> with the default \<open>right=True\<close> and
  \<open>include_lowest=False\<close>, as pandas computes it: the position of each value among the
  bin edges, values at position 0 or beyond the last edge masked as missing, and the
  category code one less than the position. The result is the column of category codes
  (\<open>None\<close> for missing); the categories are the labels, in the order given.
\<close>

definition pd_cut :: "int list \<Rightarrow> int list \<Rightarrow> nat option list" where
  "pd_cut xs bs =
     map (\<lambda>x. let ids = searchsorted_left bs x
              in if ids = length bs \<or> ids = 0 then None else Some (ids - 1)) xs"

text \<open>
  \<open>value_counts()\<close> of a categorical column: one row (code, count) for every category,
  present or not, missing values dropped, the rows ordered by descending count.
\<close>

definition value_counts :: "nat \<Rightarrow> nat option list \<Rightarrow> (nat \<times> nat) list" where
  "value_counts ncat codes =
     sort_key (\<lambda>r. - int (snd r)) (map (\<lambda>c. (c, count_list codes (Some c))) [0..<ncat])"

text \<open>\<open>sort_index()\<close> on the ordered categorical index: ascending category code.\<close>

definition sort_index :: "(nat \<times> nat) list \<Rightarrow> (nat \<times> nat) list" where
  "sort_index rows = sort_key fst rows"

text \<open>
  The frame \<open>bucket_counts\<close> of the page, columns \<open>Time Frame\<close> and \<open>Count\<close>, from the
  rows of the batch.
\<close>

definition bucket_counts :: "outcome list \<Rightarrow> (string \<times> nat) list" where
  "bucket_counts df =
     (let days_left_bucket = pd_cut (fillna (-1) (map days_left df)) bins
      in map (\<lambda>(c, n). (labels ! c, n))
           (sort_index (value_counts (length labels) days_left_bucket)))"

section \<open>A sample world\<close>

text \<open>
  A clock reading (2026-11-04 10:00:00.5) and a handful of servers, for evaluating the
  definitions: certificates that end in 200 days, in 5 days, three hours ago and in the
  year 9999; a server that refuses the connection; one whose failure has an empty string
  form; one whose handshake fails; one whose certificate date does not parse; and one
  that answers only to a caller waiting ten seconds or more.
\<close>

definition sample_now :: datetime where
  "sample_now = \<lparr>ordinal = 739924, hour = 10, minute = 0, second = 0, microsecond = 500000\<rparr>"

definition sample_certs :: "(string \<times> string) list" where
  "sample_certs =
     [(''a.example'', ''May 23 12:00:00 2027 GMT''),
      (''b.example'', ''Nov  9 12:00:00 2026 GMT''),
      (''d.example'', ''Nov  4 07:00:00 2026 GMT''),
      (''e.example'', ''Dec 31 23:59:59 9999 GMT''),
      (''h.example'', ''sometime''),
      (''slow.example'', ''May 23 12:00:00 2027 GMT'')]"

definition sample_dates :: "(string \<times> datetime) list" where
  "sample_dates =
     [(''May 23 12:00:00 2027 GMT'',
         \<lparr>ordinal = 740124, hour = 12, minute = 0, second = 0, microsecond = 0\<rparr>),
      (''Nov  9 12:00:00 2026 GMT'',
         \<lparr>ordinal = 739929, hour = 12, minute = 0, second = 0, microsecond = 0\<rparr>),
      (''Nov  4 07:00:00 2026 GMT'',
         \<lparr>ordinal = 739924, hour = 7, minute = 0, second = 0, microsecond = 0\<rparr>),
      (''Dec 31 23:59:59 9999 GMT'',
         \<lparr>ordinal = 3652059, hour = 23, minute = 59, second = 59, microsecond = 0\<rparr>)]"

definition sample_world :: world where
  "sample_world =
     \<lparr>create_connection =
        (\<lambda>h p t.
           if h = ''c.example''
           then Some (Exception ''ConnectionRefusedError'' ''[Errno 111] Connection refused'')
           else if h = ''f.example'' then Some (Exception ''MemoryError'' [])
           else if h = ''slow.example'' \<and> t < 10 then Some (Exception ''TimeoutError'' ''timed out'')
           else None),
      wrap_socket =
        (\<lambda>s name.
           case map_of sample_certs name of
             Some text \<Rightarrow> Inr [''notAfter'' \<mapsto> text]
           | None \<Rightarrow> Inl (Exception ''SSLCertVerificationError'' ''certificate verify failed'')),
      strptime =
        (\<lambda>text.
           case map_of sample_dates text of
             Some t \<Rightarrow> Inr t
           | None \<Rightarrow> Inl (Exception ''ValueError'' ''time data does not match format'')),
      utcnow = sample_now\<rparr>"

definition sample_env :: "nat \<Rightarrow> world" where
  "sample_env i = sample_world"

text \<open>The world in which every socket operation behaves as it does under timeout \<open>t\<close>.\<close>

definition at_timeout :: "rat \<Rightarrow> world \<Rightarrow> world" where
  "at_timeout t w =
     w\<lparr>create_connection := (\<lambda>h p t'. create_connection w h p t),
       wrap_socket := (\<lambda>s name. wrap_socket w (s\<lparr>sock_timeout := t\<rparr>) name)\<rparr>"

text \<open>
  A submitted text of three lines: a host, the same host with blanks around it, and an
  empty line.
\<close>

definition sample_text :: string where
  "sample_text = ''a.example'' @ [CHR 0x0A] @ '' a.example '' @ [CHR 0x0D, CHR 0x0A, CHR 0x0A]"

text \<open>The rows of a batch over five of the sample servers.\<close>

definition sample_frame :: "outcome list" where
  "sample_frame =
     map (\<lambda>h. check_host sample_world h 443 15)
       [''a.example'', ''b.example'', ''c.example'', ''d.example'', ''e.example'']"

section \<open>Properties of a single probe\<close>

lemma timedelta_new_days_raw: "days (timedelta_new d s u) =
      d + s div 86400 + (u div 1000000) div 86400
        + (s mod 86400 + (u div 1000000) mod 86400) div 86400"
    by (simp add: timedelta_new_def Let_def)

lemma div_nested:
  fixes a b d s u :: int
  assumes "0 < a" "0 < b"
  shows "((d * b + s) * a + u) div (a * b) = d + (s + u div a) div b"
proof -
  have "((d * b + s) * a + u) div (a * b) = (((d * b + s) * a + u) div a) div b"
    using assms by (simp add: zdiv_zmult2_eq)
  also have "((d * b + s) * a + u) div a = (d * b + s) + u div a"
    using assms by simp
  also have "((d * b + s) + u div a) div b = d + (s + u div a) div b"
    using assms by (simp add: add.assoc)
  finally show ?thesis .
qed

lemma timedelta_new_days:
  "days (timedelta_new d s u) = ((d * 86400 + s) * 1000000 + u) div (1000000 * 86400)"
proof -
  have "((d * 86400 + s) * 1000000 + u) div (1000000 * 86400) = d + (s + u div 1000000) div 86400"
    by (rule div_nested) simp_all
  also have "(s + u div 1000000) div 86400 = s div 86400 + (u div 1000000) div 86400
        + (s mod 86400 + (u div 1000000) mod 86400) div 86400"
    by (rule div_add1_eq)
  finally show ?thesis
    by (simp only: timedelta_new_days_raw add.assoc)
qed

lemma datetime_sub_days:
  "days (datetime_sub a b) = (total_us a - total_us b) div us_per_day"
proof -
  have e: "total_us a - total_us b =
      ((ordinal a - ordinal b) * 86400
         + ((second a + minute a * 60 + hour a * 3600) - (second b + minute b * 60 + hour b * 3600))) * 1000000
      + (microsecond a - microsecond b)"
    by (simp add: total_us_def algebra_simps)
  have u: "us_per_day = 1000000 * 86400" by (simp add: us_per_day_def)
  show ?thesis
    unfolding e u datetime_sub_def Let_def by (rule timedelta_new_days)
qed

lemma check_host_success:
  assumes "fetch_cert_expiry w h p None = Inr e"
  shows "check_host w h p warn_days =
     \<lparr>host = h, port = p, expiry = Some e,
      days_left = Some (days (datetime_sub e (utcnow w))),
      status = (if days (datetime_sub e (utcnow w)) > warn_days then ''OK'' else ''WARNING''),
      error = ''''\<rparr>"
  using assms by (simp add: check_host_def Let_def)

lemma check_host_failure:
  assumes "fetch_cert_expiry w h p None = Inl ex"
  shows "check_host w h p warn_days =
     \<lparr>host = h, port = p, expiry = None, days_left = None, status = ''ERROR'',
      error = exn_str ex\<rparr>"
  using assms by (simp add: check_host_def)


lemmas sample_defs = fetch_cert_expiry_def sample_world_def sample_certs_def sample_dates_def
  sample_now_def

lemma sample_fetch_a: "fetch_cert_expiry sample_world ''a.example'' 443 None =
    Inr \<lparr>ordinal = 740124, hour = 12, minute = 0, second = 0, microsecond = 0\<rparr>"
  by (simp add: sample_defs)

lemma sample_fetch_b: "fetch_cert_expiry sample_world ''b.example'' 443 None =
    Inr \<lparr>ordinal = 739929, hour = 12, minute = 0, second = 0, microsecond = 0\<rparr>"
  by (simp add: sample_defs)

lemma sample_fetch_c: "fetch_cert_expiry sample_world ''c.example'' 443 None =
    Inl (Exception ''ConnectionRefusedError'' ''[Errno 111] Connection refused'')"
  by (simp add: sample_defs)

lemma sample_fetch_d: "fetch_cert_expiry sample_world ''d.example'' 443 None =
    Inr \<lparr>ordinal = 739924, hour = 7, minute = 0, second = 0, microsecond = 0\<rparr>"
  by (simp add: sample_defs)

lemma sample_fetch_e: "fetch_cert_expiry sample_world ''e.example'' 443 None =
    Inr \<lparr>ordinal = 3652059, hour = 23, minute = 59, second = 59, microsecond = 0\<rparr>"
  by (simp add: sample_defs)

lemma sample_fetch_f: "fetch_cert_expiry sample_world ''f.example'' 443 None =
    Inl (Exception ''MemoryError'' [])"
  by (simp add: sample_defs)

lemma sample_utcnow: "utcnow sample_world = sample_now"
  by (simp add: sample_world_def)

lemma sample_check_a: "check_host sample_world ''a.example'' 443 15 =
    \<lparr>host = ''a.example'', port = 443,
     expiry = Some \<lparr>ordinal = 740124, hour = 12, minute = 0, second = 0, microsecond = 0\<rparr>,
     days_left = Some 200, status = ''OK'', error = []\<rparr>"
  by (simp add: check_host_success [OF sample_fetch_a] sample_utcnow sample_now_def
      datetime_sub_def timedelta_new_def)

lemma sample_check_b: "check_host sample_world ''b.example'' 443 15 =
    \<lparr>host = ''b.example'', port = 443,
     expiry = Some \<lparr>ordinal = 739929, hour = 12, minute = 0, second = 0, microsecond = 0\<rparr>,
     days_left = Some 5, status = ''WARNING'', error = []\<rparr>"
  by (simp add: check_host_success [OF sample_fetch_b] sample_utcnow sample_now_def
      datetime_sub_def timedelta_new_def)

lemma sample_check_c: "check_host sample_world ''c.example'' 443 15 =
    \<lparr>host = ''c.example'', port = 443, expiry = None, days_left = None, status = ''ERROR'',
     error = ''[Errno 111] Connection refused''\<rparr>"
  by (simp add: check_host_failure [OF sample_fetch_c])

lemma sample_check_d: "check_host sample_world ''d.example'' 443 15 =
    \<lparr>host = ''d.example'', port = 443,
     expiry = Some \<lparr>ordinal = 739924, hour = 7, minute = 0, second = 0, microsecond = 0\<rparr>,
     days_left = Some (- 1), status = ''WARNING'', error = []\<rparr>"
  by (simp add: check_host_success [OF sample_fetch_d] sample_utcnow sample_now_def
      datetime_sub_def timedelta_new_def)

lemma sample_check_e: "check_host sample_world ''e.example'' 443 15 =
    \<lparr>host = ''e.example'', port = 443,
     expiry = Some \<lparr>ordinal = 3652059, hour = 23, minute = 59, second = 59, microsecond = 0\<rparr>,
     days_left = Some 2912135, status = ''OK'', error = []\<rparr>"
  by (simp add: check_host_success [OF sample_fetch_e] sample_utcnow sample_now_def
      datetime_sub_def timedelta_new_def)

lemma sample_check_f: "check_host sample_world ''f.example'' 443 15 =
    \<lparr>host = ''f.example'', port = 443, expiry = None, days_left = None, status = ''ERROR'',
     error = []\<rparr>"
  by (simp add: check_host_failure [OF sample_fetch_f])

text \<open>
  Claim C1. An outcome of \<open>check_host\<close> that has an expiry has a number of days left,
  and its status is WARNING exactly when that number is at most \<open>warn_days\<close> (negative
  numbers included) and OK exactly when it is greater.
\<close>

theorem check_host_status_threshold:
  assumes "expiry (check_host w h p warn_days) \<noteq> None"
  shows "\<exists>d. days_left (check_host w h p warn_days) = Some d
     \<and> (status (check_host w h p warn_days) = ''WARNING'' \<longleftrightarrow> d \<le> warn_days)
     \<and> (status (check_host w h p warn_days) = ''OK'' \<longleftrightarrow> warn_days < d)"
proof (cases "fetch_cert_expiry w h p None")
  case (Inl ex)
  from check_host_failure [OF Inl] assms show ?thesis by simp
next
  case (Inr e)
  show ?thesis
    unfolding check_host_success [OF Inr] by simp
qed

theorem check_host_status_threshold_witness:
  "expiry (check_host sample_world ''d.example'' 443 15) \<noteq> None
   \<and> days_left (check_host sample_world ''d.example'' 443 15) = Some (- 1)
   \<and> status (check_host sample_world ''d.example'' 443 15) = ''WARNING''"
proof -
  have h: "expiry (check_host sample_world ''d.example'' 443 15) \<noteq> None"
    by (simp add: sample_check_d)
  have d: "days_left (check_host sample_world ''d.example'' 443 15) = Some (- 1)"
    by (simp add: sample_check_d)
  from check_host_status_threshold [OF h] d
  have "status (check_host sample_world ''d.example'' 443 15) = ''WARNING''"
    by auto
  with h d show ?thesis by simp
qed

text \<open>
  Claim C2. The status of an outcome of \<open>check_host\<close> is ERROR exactly when its expiry is
  absent, and then the number of days left is absent too.
\<close>

theorem check_host_error_iff_no_expiry:
  "(status (check_host w h p warn_days) = ''ERROR'' \<longleftrightarrow> expiry (check_host w h p warn_days) = None)
   \<and> (expiry (check_host w h p warn_days) = None \<longrightarrow> days_left (check_host w h p warn_days) = None)"
proof (cases "fetch_cert_expiry w h p None")
  case (Inl ex)
  show ?thesis unfolding check_host_failure [OF Inl] by simp
next
  case (Inr e)
  show ?thesis unfolding check_host_success [OF Inr] by simp
qed

theorem check_host_error_iff_no_expiry_witness:
  "expiry (check_host sample_world ''c.example'' 443 15) = None
   \<and> status (check_host sample_world ''c.example'' 443 15) = ''ERROR''
   \<and> days_left (check_host sample_world ''c.example'' 443 15) = None"
proof -
  have h: "expiry (check_host sample_world ''c.example'' 443 15) = None"
    by (simp add: sample_check_c)
  from check_host_error_iff_no_expiry [of sample_world "''c.example''" 443 15] h
  show ?thesis by blast
qed

text \<open>
  Claim C6. For a successful probe the number of days left is the floor of the time from
  the clock reading to the expiry, counted in days: it is the one integer \<open>d\<close> with
  \<open>d\<close> days \<open>\<le>\<close> expiry \<open>-\<close> now \<open><\<close> \<open>d + 1\<close> days. A certificate that ended less than a
  day ago has \<open>- 1\<close> days left.
\<close>

theorem check_host_days_left_floor:
  assumes "expiry (check_host w h p warn_days) = Some e"
  shows "\<exists>d. days_left (check_host w h p warn_days) = Some d
     \<and> d * us_per_day \<le> total_us e - total_us (utcnow w)
     \<and> total_us e - total_us (utcnow w) < (d + 1) * us_per_day
     \<and> (total_us e < total_us (utcnow w) \<and> total_us (utcnow w) - total_us e < us_per_day
          \<longrightarrow> d = - 1)"
proof (cases "fetch_cert_expiry w h p None")
  case (Inl ex)
  from check_host_failure [OF Inl] assms show ?thesis by simp
next
  case (Inr e')
  from check_host_success [OF Inr] assms have e: "e' = e" by simp
  define x where "x = total_us e - total_us (utcnow w)"
  define d where "d = x div us_per_day"
  have pos: "0 < us_per_day" by (simp add: us_per_day_def)
  have dl: "days_left (check_host w h p warn_days) = Some d"
    unfolding check_host_success [OF Inr] e d_def x_def by (simp add: datetime_sub_days)
  have m: "0 \<le> x mod us_per_day" "x mod us_per_day < us_per_day"
    using pos by simp_all
  have eq: "x = d * us_per_day + x mod us_per_day"
    by (simp add: d_def)
  have lo: "d * us_per_day \<le> x"
    using eq m(1) by linarith
  have hi': "x < d * us_per_day + us_per_day"
    using eq m(2) by linarith
  have "(d + 1) * us_per_day = d * us_per_day + us_per_day"
    by (simp add: algebra_simps)
  with hi' have hi: "x < (d + 1) * us_per_day"
    by simp
  have neg: "d = - 1" if "x < 0" "- x < us_per_day"
    using that lo hi' unfolding us_per_day_def by linarith
  from dl lo hi neg show ?thesis unfolding x_def by auto
qed


theorem check_host_days_left_floor_witness:
  "expiry (check_host sample_world ''d.example'' 443 15) =
     Some \<lparr>ordinal = 739924, hour = 7, minute = 0, second = 0, microsecond = 0\<rparr>
   \<and> total_us \<lparr>ordinal = 739924, hour = 7, minute = 0, second = 0, microsecond = 0\<rparr>
       < total_us (utcnow sample_world)
   \<and> total_us (utcnow sample_world)
       - total_us \<lparr>ordinal = 739924, hour = 7, minute = 0, second = 0, microsecond = 0\<rparr>
       < us_per_day
   \<and> days_left (check_host sample_world ''d.example'' 443 15) = Some (- 1)"
proof -
  let ?e = "\<lparr>ordinal = 739924, hour = 7, minute = 0, second = 0, microsecond = 0\<rparr>"
  have h: "expiry (check_host sample_world ''d.example'' 443 15) = Some ?e"
    by (simp add: sample_check_d)
  have a: "total_us ?e < total_us (utcnow sample_world)"
    by (simp add: total_us_def sample_utcnow sample_now_def)
  have b: "total_us (utcnow sample_world) - total_us ?e < us_per_day"
    by (simp add: total_us_def sample_utcnow sample_now_def us_per_day_def)
  from check_host_days_left_floor [OF h] a b
  have "days_left (check_host sample_world ''d.example'' 443 15) = Some (- 1)"
    by auto
  with h a b show ?thesis by simp
qed

text \<open>
  Claim C8 says that the error field is empty for OK and WARNING and non-empty for ERROR.
  The second half fails for an exception whose string form is empty.
\<close>

theorem check_host_error_field_counterexample:
  "status (check_host sample_world ''f.example'' 443 15) = ''ERROR''
   \<and> error (check_host sample_world ''f.example'' 443 15) = []"
  by (simp add: sample_check_f)

text \<open>
  Claim C8, amended. The error field is empty whenever the status is OK or WARNING, and
  whenever the status is ERROR it is the string form of the exception that the probe
  raised (so it is non-empty exactly when that string form is).
\<close>

theorem check_host_error_field:
  "(status (check_host w h p warn_days) = ''OK'' \<or> status (check_host w h p warn_days) = ''WARNING''
      \<longrightarrow> error (check_host w h p warn_days) = [])
   \<and> (status (check_host w h p warn_days) = ''ERROR''
      \<longrightarrow> (\<exists>ex. fetch_cert_expiry w h p None = Inl ex
             \<and> error (check_host w h p warn_days) = exn_str ex))"
proof (cases "fetch_cert_expiry w h p None")
  case (Inl ex)
  show ?thesis unfolding check_host_failure [OF Inl] using Inl by simp
next
  case (Inr e)
  show ?thesis unfolding check_host_success [OF Inr] by simp
qed

theorem check_host_error_field_witness:
  "status (check_host sample_world ''a.example'' 443 15) = ''OK''
   \<and> error (check_host sample_world ''a.example'' 443 15) = []
   \<and> status (check_host sample_world ''c.example'' 443 15) = ''ERROR''
   \<and> error (check_host sample_world ''c.example'' 443 15) = ''[Errno 111] Connection refused''"
proof -
  have a: "status (check_host sample_world ''a.example'' 443 15) = ''OK''"
    by (simp add: sample_check_a)
  have c: "status (check_host sample_world ''c.example'' 443 15) = ''ERROR''"
    by (simp add: sample_check_c)
  from check_host_error_field [of sample_world "''a.example''" 443 15] a
  have ea: "error (check_host sample_world ''a.example'' 443 15) = []"
    by blast
  from check_host_error_field [of sample_world "''c.example''" 443 15] c
  obtain ex where "fetch_cert_expiry sample_world ''c.example'' 443 None = Inl ex"
    and "error (check_host sample_world ''c.example'' 443 15) = exn_str ex"
    by blast
  then have ec: "error (check_host sample_world ''c.example'' 443 15)
      = ''[Errno 111] Connection refused''"
    by (auto simp add: sample_fetch_c)
  from a ea c ec show ?thesis by simp
qed

lemma at_timeout_sel:
  "create_connection (at_timeout t w) h p t' = create_connection w h p t"
  "wrap_socket (at_timeout t w) s name = wrap_socket w (s\<lparr>sock_timeout := t\<rparr>) name"
  "strptime (at_timeout t w) = strptime w"
  "utcnow (at_timeout t w) = utcnow w"
  by (simp_all add: at_timeout_def)

lemma fetch_at_timeout:
  "fetch_cert_expiry (at_timeout 5 w) h p None = fetch_cert_expiry w h p None"
  by (simp add: fetch_cert_expiry_def at_timeout_sel split: option.split sum.split)

lemma check_host_at_timeout:
  "check_host (at_timeout 5 w) h p warn_days = check_host w h p warn_days"
  by (simp add: check_host_def fetch_at_timeout at_timeout_sel split: sum.split)

lemma submit_all_at_timeout:
  "submit_all (\<lambda>i. at_timeout 5 (env i)) hosts p warn_days = submit_all env hosts p warn_days"
  by (simp add: submit_all_def check_host_at_timeout)

text \<open>
  Claim C9. \<open>check_host\<close> calls the prober without a timeout, so the prober runs with its
  default of 5.0 seconds, and neither \<open>check_host\<close> nor \<open>run_checks\<close> has a parameter
  to change it: an outcome, and a whole batch, is what it would be in a world where every
  socket operation behaves as under a timeout of 5.0 seconds.
\<close>

theorem probe_timeout_fixed:
  "fetch_cert_expiry w h p None = fetch_cert_expiry w h p (Some 5)
   \<and> check_host w h p warn_days = check_host (at_timeout 5 w) h p warn_days
   \<and> run_checks env sched hosts p warn_days workers
       = run_checks (\<lambda>i. at_timeout 5 (env i)) sched hosts p warn_days workers"
  by (simp add: check_host_at_timeout run_checks_def submit_all_at_timeout)
     (simp add: fetch_cert_expiry_def)

lemma sample_timeout_matters:
  "fetch_cert_expiry sample_world ''slow.example'' 443 (Some 30)
     \<noteq> fetch_cert_expiry sample_world ''slow.example'' 443 None"
  by (simp add: sample_defs)

section \<open>Properties of a batch\<close>

lemma as_completed_mset: "mset (as_completed fs sched) = mset fs"
proof (induction fs sched rule: as_completed.induct)
  case (3 f fs c cs)
  define i where "i = c mod length (f # fs)"
  have i: "i < length (f # fs)" by (simp add: i_def)
  have split: "f # fs = take i (f # fs) @ (f # fs) ! i # drop (Suc i) (f # fs)"
    using i by (rule id_take_nth_drop)
  have "mset (as_completed (f # fs) (c # cs))
      = {#(f # fs) ! i#} + mset (as_completed (take i (f # fs) @ drop (Suc i) (f # fs)) cs)"
    by (simp add: i_def Let_def)
  also have "\<dots> = {#(f # fs) ! i#} + mset (take i (f # fs) @ drop (Suc i) (f # fs))"
    using "3.IH" [of i] by (simp add: i_def)
  also have "\<dots> = mset (take i (f # fs) @ (f # fs) ! i # drop (Suc i) (f # fs))"
    by simp
  also have "\<dots> = mset (f # fs)"
    using split by simp
  finally show ?case .
qed simp_all

lemma as_completed_length: "length (as_completed fs sched) = length fs"
  using as_completed_mset [of fs sched] by (metis size_mset)

lemma as_completed_any_order:
  "mset ys = mset fs \<Longrightarrow> \<exists>sched. as_completed fs sched = ys"
proof (induction ys arbitrary: fs)
  case Nil
  then show ?case by simp
next
  case (Cons y ys)
  from Cons.prems have "y \<in> set fs"
    by (metis list.set_intros(1) set_mset_mset)
  then obtain i where i: "i < length fs" and y: "fs ! i = y"
    by (auto simp: in_set_conv_nth)
  from i obtain f fs' where fs: "fs = f # fs'" by (cases fs) auto
  have split: "fs = take i fs @ y # drop (Suc i) fs"
    using i y id_take_nth_drop by fastforce
  have "mset fs = {#y#} + mset (take i fs @ drop (Suc i) fs)"
    by (subst split) simp
  with Cons.prems have "mset ys = mset (take i fs @ drop (Suc i) fs)" by simp
  from Cons.IH [OF this] obtain sched
    where sched: "as_completed (take i fs @ drop (Suc i) fs) sched = ys" by blast
  have "as_completed fs (i # sched) = y # ys"
    using i y sched unfolding fs by (simp add: Let_def)
  then show ?case by blast
qed

lemma collect_eq:
  "collect n futs (rs, c, bar) =
     (rs @ map fut_result futs, c + length futs,
      \<lparr>shown = (if futs = [] then shown bar else of_nat (c + length futs) / of_nat n),
       emitted = emitted bar @ map (\<lambda>k. of_nat k / of_nat n) [Suc c..<Suc (c + length futs)]\<rparr>)"
proof (induction futs arbitrary: rs c bar)
  case Nil
  show ?case by simp
next
  case (Cons fut futs)
  have up: "[Suc c..<Suc (c + length (fut # futs))]
      = Suc c # [Suc (Suc c)..<Suc (Suc c + length futs)]"
    by (subst upt_rec) simp
  have "collect n (fut # futs) (rs, c, bar) =
      collect n futs (rs @ [fut_result fut], Suc c,
        progress_update bar (of_nat (Suc c) / of_nat n))"
    by simp
  also have "\<dots> = (rs @ map fut_result (fut # futs), c + length (fut # futs),
      \<lparr>shown = of_nat (c + length (fut # futs)) / of_nat n,
       emitted = emitted bar @ map (\<lambda>k. of_nat k / of_nat n)
          (Suc c # [Suc (Suc c)..<Suc (Suc c + length futs)])\<rparr>)"
    unfolding Cons.IH by (simp add: progress_update_def)
  finally show ?case
    unfolding up by simp
qed

lemma submit_all_length: "length (submit_all env hosts p warn_days) = length hosts"
  by (simp add: submit_all_def)

lemma submit_all_results:
  "map fut_result (map fst (submit_all env hosts p warn_days))
     = map (\<lambda>(i, h). check_host (env i) h p warn_days) (enumerate 0 hosts)"
  by (simp add: submit_all_def case_prod_beta)

lemma run_checks_eq:
  assumes "hosts \<noteq> []" "0 < workers"
  shows "run_checks env sched hosts p warn_days workers =
     Inr (map fut_result (as_completed (map fst (submit_all env hosts p warn_days)) sched),
          \<lparr>shown = 1,
           emitted = map (\<lambda>k. of_nat k / of_nat (length hosts)) [1..<Suc (length hosts)]\<rparr>)"
proof -
  let ?futs = "as_completed (map fst (submit_all env hosts p warn_days)) sched"
  have len: "length ?futs = length hosts"
    by (simp add: as_completed_length submit_all_length)
  with assms(1) have ne: "?futs \<noteq> []" by auto
  have one: "(of_nat (length hosts) :: rat) / of_nat (length hosts) = 1"
    using assms(1) by simp
  show ?thesis
    using assms ne
    by (simp add: run_checks_def Let_def collect_eq st_progress_def submit_all_length len one)
qed

lemma progress_values_bounded:
  assumes "v \<in> set (map (\<lambda>k. (of_nat k :: rat) / of_nat n) [1..<Suc n])"
  shows "0 \<le> v \<and> v \<le> 1"
proof -
  from assms obtain k where k: "1 \<le> k" "k \<le> n" and v: "v = of_nat k / of_nat n"
    by auto
  from k have "(of_nat k :: rat) \<le> of_nat n" by simp
  moreover from k have "(0 :: rat) < of_nat n" by simp
  ultimately have "(of_nat k :: rat) / of_nat n \<le> 1" by simp
  with v show ?thesis by simp
qed

lemma progress_values_sorted:
  "sorted (map (\<lambda>k. (of_nat k :: rat) / of_nat n) [1..<Suc n])"
proof -
  have "sorted_wrt (\<lambda>j k. (of_nat j :: rat) / of_nat n \<le> of_nat k / of_nat n) [1..<Suc n]"
  proof (rule sorted_wrt_mono_rel [of _ "(\<le>)"])
    fix j k :: nat
    assume "j \<le> k"
    then show "(of_nat j :: rat) / of_nat n \<le> of_nat k / of_nat n"
      by (simp add: divide_right_mono)
  next
    show "sorted_wrt (\<le>) [1..<Suc n]" by (rule sorted_upt)
  qed
  then show ?thesis by (simp add: sorted_map)
qed

lemma progress_values_last:
  assumes "0 < n"
  shows "last (map (\<lambda>k. (of_nat k :: rat) / of_nat n) [1..<Suc n]) = 1"
proof -
  from assms have ne: "[1..<Suc n] \<noteq> []" by simp
  from assms have "last [1..<Suc n] = n" by simp
  with ne assms show ?thesis by (simp add: last_map)
qed

text \<open>
  Claim C4. For a batch of \<open>n \<ge> 1\<close> hosts, the values passed to the progress bar are
  \<open>k / n\<close> for \<open>k = 1, \<dots>, n\<close>, in this order: each lies between 0 and 1, the sequence
  never decreases, its last value is 1, and when the batch returns the bar shows 1 and
  has been updated once for every outcome recorded.
\<close>

theorem run_checks_progress:
  assumes "hosts \<noteq> []" "0 < workers"
  shows "\<exists>results bar. run_checks env sched hosts p warn_days workers = Inr (results, bar)
     \<and> emitted bar = map (\<lambda>k. of_nat k / of_nat (length hosts)) [1..<Suc (length hosts)]
     \<and> (\<forall>v \<in> set (emitted bar). 0 \<le> v \<and> v \<le> 1)
     \<and> sorted (emitted bar)
     \<and> last (emitted bar) = 1
     \<and> shown bar = 1
     \<and> length (emitted bar) = length results"
proof -
  let ?results = "map fut_result (as_completed (map fst (submit_all env hosts p warn_days)) sched)"
  let ?vals = "map (\<lambda>k. (of_nat k :: rat) / of_nat (length hosts)) [1..<Suc (length hosts)]"
  let ?bar = "\<lparr>shown = 1, emitted = ?vals\<rparr>"
  have run: "run_checks env sched hosts p warn_days workers = Inr (?results, ?bar)"
    using assms by (rule run_checks_eq)
  have bounded: "\<forall>v \<in> set (emitted ?bar). 0 \<le> v \<and> v \<le> 1"
    using progress_values_bounded [of _ "length hosts"] by simp
  have srt: "sorted (emitted ?bar)"
    using progress_values_sorted [of "length hosts"] by simp
  have lst: "last (emitted ?bar) = 1"
    using progress_values_last [of "length hosts"] assms(1) by simp
  have len: "length (emitted ?bar) = length ?results"
    by (simp add: as_completed_length submit_all_length del: upt_Suc)
  have em: "emitted ?bar = ?vals" by simp
  have sh: "shown ?bar = 1" by simp
  from run em bounded srt lst sh len show ?thesis by blast
qed

theorem run_checks_progress_witness:
  "[''a.example'', ''b.example'', ''c.example''] \<noteq> [] \<and> (0 :: int) < 10
   \<and> emitted (snd (projr (run_checks sample_env [2, 0]
         [''a.example'', ''b.example'', ''c.example''] 443 15 10))) = [1 / 3, 2 / 3, 1]
   \<and> shown (snd (projr (run_checks sample_env [2, 0]
         [''a.example'', ''b.example'', ''c.example''] 443 15 10))) = 1"
proof -
  let ?hosts = "[''a.example'', ''b.example'', ''c.example'']"
  have h1: "?hosts \<noteq> []" by simp
  have h2: "(0 :: int) < 10" by simp
  from run_checks_progress [OF h1 h2, of sample_env "[2, 0]" 443 15]
  obtain results bar where run: "run_checks sample_env [2, 0] ?hosts 443 15 10 = Inr (results, bar)"
    and em: "emitted bar = map (\<lambda>k. of_nat k / of_nat (length ?hosts)) [1..<Suc (length ?hosts)]"
    and sh: "shown bar = 1"
    by blast
  have "[1..<Suc (length ?hosts)] = [1, 2, 3]"
    by (simp add: upt_rec)
  with em have "emitted bar = [1 / 3, 2 / 3, 1]" by simp
  with run sh h1 h2 show ?thesis by simp
qed

lemma enumerate_results:
  "map (\<lambda>(i, h). check_host (env i) h p warn_days) (enumerate 0 hosts)
     = map (\<lambda>i. check_host (env i) (hosts ! i) p warn_days) [0..<length hosts]"
  by (rule nth_equalityI) (simp_all add: nth_enumerate_eq)

text \<open>
  Claim C7. A batch with at least one host and at least one worker returns, whatever the
  probes do: the outcomes are those of \<open>check_host\<close> on every submitted host, each once,
  in some order. A host whose probe raises an exception is among them, as an outcome of
  status ERROR that carries the string form of the exception.
\<close>

theorem run_checks_failures_contained:
  assumes "hosts \<noteq> []" "0 < workers"
  shows "\<exists>results bar. run_checks env sched hosts p warn_days workers = Inr (results, bar)
     \<and> mset results = mset (map (\<lambda>(i, h). check_host (env i) h p warn_days) (enumerate 0 hosts))
     \<and> (\<forall>i < length hosts. \<forall>ex. fetch_cert_expiry (env i) (hosts ! i) p None = Inl ex \<longrightarrow>
           check_host (env i) (hosts ! i) p warn_days \<in> set results
           \<and> check_host (env i) (hosts ! i) p warn_days =
               \<lparr>host = hosts ! i, port = p, expiry = None, days_left = None,
                status = ''ERROR'', error = exn_str ex\<rparr>)"
proof -
  let ?results = "map fut_result (as_completed (map fst (submit_all env hosts p warn_days)) sched)"
  let ?all = "map (\<lambda>(i, h). check_host (env i) h p warn_days) (enumerate 0 hosts)"
  from run_checks_eq [OF assms] obtain bar
    where run: "run_checks env sched hosts p warn_days workers = Inr (?results, bar)"
    by blast
  let ?futs = "map fst (submit_all env hosts p warn_days)"
  have "mset ?results = image_mset fut_result (mset (as_completed ?futs sched))"
    by simp
  also have "\<dots> = image_mset fut_result (mset ?futs)"
    by (simp only: as_completed_mset)
  also have "\<dots> = mset (map fut_result ?futs)"
    by (simp only: mset_map)
  also have "\<dots> = mset ?all"
    by (simp only: submit_all_results)
  finally have ms: "mset ?results = mset ?all" .
  have mem: "check_host (env i) (hosts ! i) p warn_days \<in> set ?results" if "i < length hosts" for i
  proof -
    from that have "check_host (env i) (hosts ! i) p warn_days \<in> set ?all"
      unfolding enumerate_results by simp
    with ms show ?thesis by (metis set_mset_mset)
  qed
  from run ms mem check_host_failure show ?thesis by blast
qed

lemma sample_splitlines: "splitlines sample_text = [''a.example'', '' a.example '', []]"
  by (simp add: sample_text_def islinebreak_def splitlines.simps)

lemma sample_prepare_hosts: "prepare_hosts sample_text = [''a.example'', ''a.example'']"
  by (simp add: prepare_hosts_def sample_splitlines strip_def isspace_def)

lemma prepare_hosts_eq:
  "prepare_hosts content = map strip (filter (\<lambda>h. strip h \<noteq> []) (splitlines content))"
proof -
  have "[strip h. h \<leftarrow> xs, strip h \<noteq> []] = map strip (filter (\<lambda>h. strip h \<noteq> []) xs)" for xs
    by (induction xs) simp_all
  then show ?thesis by (simp add: prepare_hosts_def)
qed

lemma sample_run_ac:
  "run_checks sample_env [1] [''a.example'', ''c.example''] 443 15 10 =
     Inr ([check_host sample_world ''c.example'' 443 15, check_host sample_world ''a.example'' 443 15],
          \<lparr>shown = 1, emitted = [1 / 2, 1]\<rparr>)"
proof -
  have "run_checks sample_env [1] [''a.example'', ''c.example''] 443 15 10 =
     Inr (map fut_result (as_completed (map fst (submit_all sample_env [''a.example'', ''c.example''] 443 15)) [1]),
          \<lparr>shown = 1,
           emitted = map (\<lambda>k. of_nat k / of_nat (length [''a.example'', ''c.example'']))
             [1..<Suc (length [''a.example'', ''c.example''])]\<rparr>)"
    by (rule run_checks_eq) simp_all
  moreover have "[1..<Suc (length [''a.example'', ''c.example''])] = [1, 2]"
    by (simp add: upt_rec)
  ultimately show ?thesis
    by (simp add: submit_all_def sample_env_def)
qed

lemma sample_run_dup:
  "run_checks sample_env [] [''a.example'', ''a.example''] 443 15 10 =
     Inr ([check_host sample_world ''a.example'' 443 15, check_host sample_world ''a.example'' 443 15],
          \<lparr>shown = 1, emitted = [1 / 2, 1]\<rparr>)"
proof -
  have "run_checks sample_env [] [''a.example'', ''a.example''] 443 15 10 =
     Inr (map fut_result (as_completed (map fst (submit_all sample_env [''a.example'', ''a.example''] 443 15)) []),
          \<lparr>shown = 1,
           emitted = map (\<lambda>k. of_nat k / of_nat (length [''a.example'', ''a.example'']))
             [1..<Suc (length [''a.example'', ''a.example''])]\<rparr>)"
    by (rule run_checks_eq) simp_all
  moreover have "[1..<Suc (length [''a.example'', ''a.example''])] = [1, 2]"
    by (simp add: upt_rec)
  ultimately show ?thesis
    by (simp add: submit_all_def sample_env_def)
qed

theorem run_checks_failures_contained_witness:
  "[''a.example'', ''c.example''] \<noteq> [] \<and> (0 :: int) < 10
   \<and> (1 :: nat) < length [''a.example'', ''c.example'']
   \<and> fetch_cert_expiry (sample_env 1) ([''a.example'', ''c.example''] ! 1) 443 None
        = Inl (Exception ''ConnectionRefusedError'' ''[Errno 111] Connection refused'')
   \<and> check_host (sample_env 1) ([''a.example'', ''c.example''] ! 1) 443 15
        \<in> set (fst (projr (run_checks sample_env [1] [''a.example'', ''c.example''] 443 15 10)))
   \<and> check_host (sample_env 1) ([''a.example'', ''c.example''] ! 1) 443 15
        = \<lparr>host = ''c.example'', port = 443, expiry = None, days_left = None,
           status = ''ERROR'', error = ''[Errno 111] Connection refused''\<rparr>
   \<and> length (fst (projr (run_checks sample_env [1] [''a.example'', ''c.example''] 443 15 10))) = 2"
proof -
  let ?hosts = "[''a.example'', ''c.example'']"
  let ?ex = "Exception ''ConnectionRefusedError'' ''[Errno 111] Connection refused''"
  have h1: "?hosts \<noteq> []" by simp
  have h2: "(0 :: int) < 10" by simp
  have h3: "(1 :: nat) < length ?hosts" by simp
  have h4: "fetch_cert_expiry (sample_env 1) (?hosts ! 1) 443 None = Inl ?ex"
    by (simp add: sample_env_def sample_fetch_c)
  from run_checks_failures_contained [OF h1 h2, of sample_env "[1]" 443 15]
  obtain results bar
    where run: "run_checks sample_env [1] ?hosts 443 15 10 = Inr (results, bar)"
      and ms: "mset results
        = mset (map (\<lambda>(i, h). check_host (sample_env i) h 443 15) (enumerate 0 ?hosts))"
      and fail: "\<forall>i < length ?hosts. \<forall>ex.
          fetch_cert_expiry (sample_env i) (?hosts ! i) 443 None = Inl ex \<longrightarrow>
            check_host (sample_env i) (?hosts ! i) 443 15 \<in> set results
            \<and> check_host (sample_env i) (?hosts ! i) 443 15 =
                \<lparr>host = ?hosts ! i, port = 443, expiry = None, days_left = None,
                 status = ''ERROR'', error = exn_str ex\<rparr>"
    by blast
  note c = fail [rule_format, OF h3 h4]
  from c have c1: "check_host (sample_env 1) (?hosts ! 1) 443 15 \<in> set results"
    by (rule conjunct1)
  from c have c2: "check_host (sample_env 1) (?hosts ! 1) 443 15 =
          \<lparr>host = ?hosts ! 1, port = 443, expiry = None, days_left = None,
           status = ''ERROR'', error = exn_str ?ex\<rparr>"
    by (rule conjunct2)
  from ms have "size (mset results) = 2" by simp
  then have "length results = 2" by simp
  with run have len: "length (fst (projr (run_checks sample_env [1] ?hosts 443 15 10))) = 2"
    by simp
  have "fst (projr (run_checks sample_env [1] ?hosts 443 15 10)) = results"
    by (simp only: run sum.sel fst_conv)
  with c1 have mem: "check_host (sample_env 1) (?hosts ! 1) 443 15
      \<in> set (fst (projr (run_checks sample_env [1] ?hosts 443 15 10)))"
    by (simp only:)
  from c2 have eq: "check_host (sample_env 1) (?hosts ! 1) 443 15 =
      \<lparr>host = ''c.example'', port = 443, expiry = None, days_left = None,
       status = ''ERROR'', error = ''[Errno 111] Connection refused''\<rparr>"
    by simp
  show ?thesis by (intro conjI h1 h2 h3 h4 mem eq len)
qed

text \<open>
  Claim C3 counts the outcomes of a batch as the number of distinct, trimmed, non-blank
  input hosts. A host entered twice is probed twice: two outcomes for one distinct host.
\<close>

theorem run_checks_outcome_count_counterexample:
  "run_checks sample_env [] (prepare_hosts sample_text) 443 15 10 =
     Inr ([check_host sample_world ''a.example'' 443 15, check_host sample_world ''a.example'' 443 15],
          \<lparr>shown = 1, emitted = [1 / 2, 1]\<rparr>)
   \<and> length (remdups (prepare_hosts sample_text)) = 1"
  by (simp add: sample_prepare_hosts sample_run_dup)

text \<open>
  Claim C3, amended. For a batch whose prepared host list is not empty, the number of
  outcomes is the length of the prepared host list, which is the number of input lines
  that are not blank after trimming, repeated host names counted each time.
\<close>

theorem run_checks_outcome_count:
  assumes "prepare_hosts content \<noteq> []" "0 < workers"
  shows "\<exists>results bar.
     run_checks env sched (prepare_hosts content) p warn_days workers = Inr (results, bar)
     \<and> length results = length (prepare_hosts content)
     \<and> length results = length (filter (\<lambda>l. strip l \<noteq> []) (splitlines content))"
proof -
  let ?hosts = "prepare_hosts content"
  let ?results = "map fut_result (as_completed (map fst (submit_all env ?hosts p warn_days)) sched)"
  from run_checks_eq [OF assms] obtain bar
    where run: "run_checks env sched ?hosts p warn_days workers = Inr (?results, bar)"
    by blast
  have len: "length ?results = length ?hosts"
    by (simp add: as_completed_length submit_all_length)
  have "length ?hosts = length (filter (\<lambda>l. strip l \<noteq> []) (splitlines content))"
    by (simp add: prepare_hosts_eq)
  with len have "length ?results = length ?hosts
      \<and> length ?results = length (filter (\<lambda>l. strip l \<noteq> []) (splitlines content))"
    by simp
  with run show ?thesis by blast
qed

theorem run_checks_outcome_count_witness:
  "prepare_hosts sample_text \<noteq> [] \<and> (0 :: int) < 10
   \<and> length (fst (projr (run_checks sample_env [] (prepare_hosts sample_text) 443 15 10))) = 2
   \<and> length (filter (\<lambda>l. strip l \<noteq> []) (splitlines sample_text)) = 2"
proof -
  have h1: "prepare_hosts sample_text \<noteq> []" by (simp add: sample_prepare_hosts)
  have h2: "(0 :: int) < 10" by simp
  from run_checks_outcome_count [OF h1 h2, of sample_env "[]" 443 15]
  obtain results bar
    where run: "run_checks sample_env [] (prepare_hosts sample_text) 443 15 10 = Inr (results, bar)"
      and l1: "length results = length (prepare_hosts sample_text)"
      and l2: "length results = length (filter (\<lambda>l. strip l \<noteq> []) (splitlines sample_text))"
    by blast
  from l1 have "length results = 2" by (simp add: sample_prepare_hosts)
  with run l2 h1 h2 show ?thesis by simp
qed

lemma fetch_cert_expiry_failure:
  assumes "fetch_cert_expiry w h p None = Inl ex"
  shows "create_connection w h p 5 = Some ex
     \<or> wrap_socket w \<lparr>sock_host = h, sock_port = p, sock_timeout = 5\<rparr> h = Inl ex
     \<or> (\<exists>cert. wrap_socket w \<lparr>sock_host = h, sock_port = p, sock_timeout = 5\<rparr> h = Inr cert
           \<and> (cert ''notAfter'' = None \<and> ex = key_error ''notAfter''
               \<or> (\<exists>text. cert ''notAfter'' = Some text \<and> strptime w text = Inl ex)))"
proof (cases "create_connection w h p 5")
  case (Some e)
  with assms show ?thesis by (simp add: fetch_cert_expiry_def)
next
  case None
  show ?thesis
  proof (cases "wrap_socket w \<lparr>sock_host = h, sock_port = p, sock_timeout = 5\<rparr> h")
    case (Inl e)
    with None assms show ?thesis by (simp add: fetch_cert_expiry_def)
  next
    case (Inr cert)
    show ?thesis
    proof (cases "cert ''notAfter''")
      case n: None
      with None Inr assms show ?thesis by (simp add: fetch_cert_expiry_def)
    next
      case (Some na)
      with None Inr assms show ?thesis by (simp add: fetch_cert_expiry_def)
    qed
  qed
qed

section \<open>Properties of the bucket histogram\<close>

lemma fillna_filled: "fillna (- 1) (map days_left df) = map filled df"
  by (simp add: fillna_def filled_def)

lemma cut_single:
  "pd_cut [x] bins =
     [if x \<le> - 999 then None
      else if x \<le> 0 then Some 0
      else if x \<le> 7 then Some 1
      else if x \<le> 30 then Some 2
      else if x \<le> 90 then Some 3
      else if x \<le> 365 then Some 4
      else if x \<le> 9999 then Some 5
      else None]"
  by (simp add: pd_cut_def bins_def searchsorted_left_def)

lemma cut_Cons: "pd_cut (x # xs) bs = pd_cut [x] bs @ pd_cut xs bs"
  by (simp add: pd_cut_def)

lemma cut_Nil: "pd_cut [] bs = []"
  by (simp add: pd_cut_def)

lemma cut_codes_bounded:
  assumes "Some c \<in> set (pd_cut xs bins)"
  shows "c < 6"
  using assms
proof (induction xs)
  case Nil
  then show ?case by (simp add: cut_Nil)
next
  case (Cons x xs)
  from Cons.prems have "Some c \<in> set (pd_cut [x] bins) \<or> Some c \<in> set (pd_cut xs bins)"
    by (simp add: cut_Cons [of x xs])
  then show ?case
  proof
    assume "Some c \<in> set (pd_cut [x] bins)"
    then show ?thesis by (simp add: cut_single split: if_splits)
  next
    assume "Some c \<in> set (pd_cut xs bins)"
    then show ?thesis by (rule Cons.IH)
  qed
qed

lemma cut_present:
  "length (filter (\<lambda>code. code \<noteq> None) (pd_cut xs bins))
     = length (filter (\<lambda>x. - 999 < x \<and> x \<le> 9999) xs)"
proof (induction xs)
  case Nil
  show ?case by (simp add: cut_Nil)
next
  case (Cons x xs)
  have "length (filter (\<lambda>code. code \<noteq> None) (pd_cut [x] bins))
      = (if - 999 < x \<and> x \<le> 9999 then 1 else 0)"
    by (simp add: cut_single)
  with Cons.IH show ?case by (simp add: cut_Cons [of x xs])
qed

lemma cut_expired:
  "count_list (pd_cut xs bins) (Some 0) = length (filter (\<lambda>x. - 999 < x \<and> x \<le> 0) xs)"
proof (induction xs)
  case Nil
  show ?case by (simp add: cut_Nil)
next
  case (Cons x xs)
  have "count_list (pd_cut [x] bins) (Some 0) = (if - 999 < x \<and> x \<le> 0 then 1 else 0)"
    by (simp add: cut_single)
  with Cons.IH show ?case by (simp add: cut_Cons [of x xs])
qed

lemma filter_eq_distinct:
  assumes "distinct xs" "c \<in> set xs"
  shows "filter (\<lambda>x. c = x) xs = [c]"
  using assms
proof (induction xs)
  case Nil
  then show ?case by simp
next
  case (Cons x xs)
  show ?case
  proof (cases "c = x")
    case True
    with Cons.prems have "c \<notin> set xs" by simp
    then have "filter (\<lambda>x. c = x) xs = []" by (auto simp: filter_empty_conv)
    with True show ?thesis by simp
  next
    case False
    with Cons show ?thesis by simp
  qed
qed

lemma mset_single_list:
  assumes "mset xs = {#k#}"
  shows "xs = [k]"
proof (cases xs)
  case Nil
  with assms show ?thesis by simp
next
  case (Cons y ys)
  with assms show ?thesis by simp
qed

lemma sort_index_value_counts:
  "sort_index (value_counts ncat codes)
     = map (\<lambda>c. (c, count_list codes (Some c))) [0..<ncat]"
proof -
  let ?rows = "map (\<lambda>c. (c, count_list codes (Some c))) [0..<ncat]"
  let ?vc = "sort_key (\<lambda>r. - int (snd r)) ?rows"
  have keys: "map fst ?rows = [0..<ncat]"
    by (simp add: comp_def)
  have ms: "mset ?rows = mset ?vc" by simp
  have srt: "sorted (map fst ?rows)"
    unfolding keys by (rule sorted_upt)
  have flt: "filter (\<lambda>x. fst k = fst x) ?rows = filter (\<lambda>x. fst k = fst x) ?vc"
    if k: "k \<in> set ?rows" for k
  proof -
    from k obtain c where c: "c \<in> set [0..<ncat]" and kc: "k = (c, count_list codes (Some c))"
      by auto
    have "filter (\<lambda>x. fst k = fst x) ?rows
        = map (\<lambda>c. (c, count_list codes (Some c))) (filter (\<lambda>x. c = x) [0..<ncat])"
      by (simp add: filter_map comp_def kc)
    also have "filter (\<lambda>x. c = x) [0..<ncat] = [c]"
      using distinct_upt c by (rule filter_eq_distinct)
    finally have one: "filter (\<lambda>x. fst k = fst x) ?rows = [k]"
      by (simp add: kc)
    have "mset (filter (\<lambda>x. fst k = fst x) ?vc) = mset (filter (\<lambda>x. fst k = fst x) ?rows)"
      by (simp only: mset_filter ms)
    with one have "mset (filter (\<lambda>x. fst k = fst x) ?vc) = {#k#}" by simp
    then have "filter (\<lambda>x. fst k = fst x) ?vc = [k]" by (rule mset_single_list)
    with one show ?thesis by simp
  qed
  have "sort_key fst ?vc = ?rows"
    using ms flt srt by (rule properties_for_sort_key)
  then show ?thesis
    by (simp only: sort_index_def value_counts_def)
qed


lemma bucket_counts_eq:
  "bucket_counts df =
     map (\<lambda>c. (labels ! c, count_list (pd_cut (map filled df) bins) (Some c))) [0..<length labels]"
  by (simp only: bucket_counts_def Let_def fillna_filled sort_index_value_counts)
     (simp add: comp_def)

lemma bucket_counts_labels: "map fst (bucket_counts df) = labels"
proof -
  have "map fst (bucket_counts df) = map (\<lambda>c. labels ! c) [0..<length labels]"
    by (simp add: bucket_counts_eq comp_def)
  also have "\<dots> = labels" by (rule map_nth)
  finally show ?thesis .
qed

lemma sum_indicator:
  "sum_list (map (\<lambda>c. if x = Some c then 1 else 0) [0..<n])
     = (if \<exists>c < n. x = Some c then 1 else (0 :: nat))"
proof (induction n)
  case 0
  show ?case by simp
next
  case (Suc n)
  show ?case
  proof (cases "x = Some n")
    case True
    then have "\<not> (\<exists>c < n. x = Some c)" by auto
    with Suc True show ?thesis by auto
  next
    case False
    then have "(\<exists>c < Suc n. x = Some c) \<longleftrightarrow> (\<exists>c < n. x = Some c)"
      by (auto simp: less_Suc_eq)
    with Suc False show ?thesis by simp
  qed
qed

lemma count_list_Cons_indicator:
  "count_list (x # xs) y = (if x = y then 1 else 0) + count_list xs y"
  by simp

lemma sum_counts:
  assumes "\<And>c. Some c \<in> set codes \<Longrightarrow> c < n"
  shows "sum_list (map (\<lambda>c. count_list codes (Some c)) [0..<n])
     = length (filter (\<lambda>code. code \<noteq> None) codes)"
  using assms
proof (induction codes)
  case Nil
  show ?case by simp
next
  case (Cons x xs)
  have ih: "sum_list (map (\<lambda>c. count_list xs (Some c)) [0..<n])
      = length (filter (\<lambda>code. code \<noteq> None) xs)"
    by (rule Cons.IH) (simp add: Cons.prems)
  have "sum_list (map (\<lambda>c. count_list (x # xs) (Some c)) [0..<n])
      = sum_list (map (\<lambda>c. (if x = Some c then 1 else 0) + count_list xs (Some c)) [0..<n])"
    by (simp only: count_list_Cons_indicator)
  also have "\<dots> = sum_list (map (\<lambda>c. if x = Some c then 1 else 0) [0..<n])
      + sum_list (map (\<lambda>c. count_list xs (Some c)) [0..<n])"
    by (rule sum_list_addf)
  also have "sum_list (map (\<lambda>c. if x = Some c then 1 else 0) [0..<n])
      = (if \<exists>c < n. x = Some c then 1 else (0 :: nat))"
    by (rule sum_indicator)
  also have "(\<exists>c < n. x = Some c) \<longleftrightarrow> x \<noteq> None"
  proof (cases x)
    case None
    then show ?thesis by simp
  next
    case (Some c)
    with Cons.prems [of c] show ?thesis by simp
  qed
  finally show ?case by (simp add: ih)
qed

lemma bucket_counts_sum:
  "sum_list (map snd (bucket_counts df))
     = length (filter (\<lambda>r. - 999 < filled r \<and> filled r \<le> 9999) df)"
proof -
  let ?codes = "pd_cut (map filled df) bins"
  have six: "length labels = 6" by (simp add: labels_def)
  have "sum_list (map snd (bucket_counts df))
      = sum_list (map (\<lambda>c. count_list ?codes (Some c)) [0..<6])"
    by (simp add: bucket_counts_eq comp_def six)
  also have "\<dots> = length (filter (\<lambda>code. code \<noteq> None) ?codes)"
    by (rule sum_counts) (rule cut_codes_bounded)
  also have "\<dots> = length (filter (\<lambda>x. - 999 < x \<and> x \<le> 9999) (map filled df))"
    by (rule cut_present)
  also have "\<dots> = length (filter (\<lambda>r. - 999 < filled r \<and> filled r \<le> 9999) df)"
    by (simp add: filter_map comp_def)
  finally show ?thesis .
qed

lemma bucket_counts_expired:
  "bucket_counts df ! 0
     = (''Expired'', length (filter (\<lambda>r. - 999 < filled r \<and> filled r \<le> 0) df))"
proof -
  have six: "length labels = 6" by (simp add: labels_def)
  have "bucket_counts df ! 0 = (labels ! 0, count_list (pd_cut (map filled df) bins) (Some 0))"
    by (simp add: bucket_counts_eq six del: upt_Suc)
  also have "labels ! 0 = ''Expired''" by (simp add: labels_def)
  also have "count_list (pd_cut (map filled df) bins) (Some 0)
      = length (filter (\<lambda>x. - 999 < x \<and> x \<le> 0) (map filled df))"
    by (rule cut_expired)
  also have "\<dots> = length (filter (\<lambda>r. - 999 < filled r \<and> filled r \<le> 0) df)"
    by (simp add: filter_map comp_def)
  finally show ?thesis .
qed

lemma sample_frame_filled: "map filled sample_frame = [200, 5, - 1, - 1, 2912135]"
  by (simp add: sample_frame_def filled_def sample_check_a sample_check_b sample_check_c
      sample_check_d sample_check_e)

lemma sample_bucket_counts:
  "bucket_counts sample_frame =
     [(''Expired'', 2), (''0-7 days'', 1), (''8-30 days'', 0), (''31-90 days'', 0),
      (''91-365 days'', 1), (''>365 days'', 0)]"
proof -
  have codes: "pd_cut (map filled sample_frame) bins = [Some 4, Some 1, Some 0, Some 0, None]"
    unfolding sample_frame_filled
    by (simp add: pd_cut_def bins_def searchsorted_left_def)
  have idx: "[0..<length labels] = [0, 1, 2, 3, 4, 5]"
    by (simp add: labels_def upt_rec)
  show ?thesis
    unfolding bucket_counts_eq codes idx by (simp add: labels_def)
qed

text \<open>
  Claim C5 says that the counts of the histogram add up to the number of outcomes, rows
  of status ERROR being counted under \<open>Expired\<close>, and that the six buckets appear in
  their declared order. On the sample batch the order is the declared one and the two
  rows without a certificate date are under \<open>Expired\<close>, yet the counts add up to 4 for 5
  outcomes: the certificate that ends in the year 9999 has more than 9999 days left, and
  the last bin edge leaves it out of the bucket labelled \<open>>365 days\<close>.
\<close>

theorem bucket_counts_drops_far_future:
  "bucket_counts sample_frame =
     [(''Expired'', 2), (''0-7 days'', 1), (''8-30 days'', 0), (''31-90 days'', 0),
      (''91-365 days'', 1), (''>365 days'', 0)]
   \<and> sum_list (map snd (bucket_counts sample_frame)) = 4
   \<and> length sample_frame = 5"
  by (simp add: sample_bucket_counts) (simp add: sample_frame_def)

text \<open>
  What the histogram holds for every batch: the six labels in their declared order, empty
  buckets included; counts that add up to the number of rows that have no days left or
  have them above \<open>- 999\<close> and at most 9999; and under \<open>Expired\<close> the rows that have no
  days left or have them above \<open>- 999\<close> and at most 0.
\<close>

lemma bucket_counts_histogram:
  "map fst (bucket_counts df) = labels
   \<and> labels = [''Expired'', ''0-7 days'', ''8-30 days'', ''31-90 days'', ''91-365 days'',
               ''>365 days'']
   \<and> sum_list (map snd (bucket_counts df))
       = length (filter (\<lambda>r. case days_left r of None \<Rightarrow> True
                               | Some d \<Rightarrow> - 999 < d \<and> d \<le> 9999) df)
   \<and> bucket_counts df ! 0
       = (''Expired'', length (filter (\<lambda>r. case days_left r of None \<Rightarrow> True
                                               | Some d \<Rightarrow> - 999 < d \<and> d \<le> 0) df))"
proof -
  have a: "(\<lambda>r. - 999 < filled r \<and> filled r \<le> 9999)
      = (\<lambda>r. case days_left r of None \<Rightarrow> True | Some d \<Rightarrow> - 999 < d \<and> d \<le> 9999)"
    by (rule ext) (simp add: filled_def split: option.split)
  have b: "(\<lambda>r. - 999 < filled r \<and> filled r \<le> 0)
      = (\<lambda>r. case days_left r of None \<Rightarrow> True | Some d \<Rightarrow> - 999 < d \<and> d \<le> 0)"
    by (rule ext) (simp add: filled_def split: option.split)
  show ?thesis
    using bucket_counts_labels [of df] bucket_counts_sum [of df] bucket_counts_expired [of df]
    unfolding a b by (simp add: labels_def)
qed

text \<open>
  Claim C10. A row whose days left, absent values filled with \<open>- 1\<close>, are at most
  \<open>- 999\<close> or above 9999 gets no bucket from the cut over the bins, and the counts of a
  histogram over a batch with such a row add up to less than the number of rows.
\<close>

theorem bucket_counts_out_of_range:
  assumes "r \<in> set df" "filled r \<le> - 999 \<or> 9999 < filled r"
  shows "pd_cut (fillna (- 1) [days_left r]) bins = [None]
     \<and> sum_list (map snd (bucket_counts df)) < length df"
proof -
  have "fillna (- 1) [days_left r] = [filled r]"
    by (simp add: fillna_def filled_def)
  with assms(2) have none: "pd_cut (fillna (- 1) [days_left r]) bins = [None]"
    by (auto simp add: cut_single)
  from assms(2) have "\<not> (- 999 < filled r \<and> filled r \<le> 9999)"
    by linarith
  with assms(1)
  have "length (filter (\<lambda>r. - 999 < filled r \<and> filled r \<le> 9999) df) < length df"
    by (rule length_filter_less)
  with none show ?thesis by (simp add: bucket_counts_sum)
qed

theorem bucket_counts_out_of_range_witness:
  "check_host sample_world ''e.example'' 443 15 \<in> set sample_frame
   \<and> 9999 < filled (check_host sample_world ''e.example'' 443 15)
   \<and> pd_cut (fillna (- 1) [days_left (check_host sample_world ''e.example'' 443 15)]) bins = [None]
   \<and> sum_list (map snd (bucket_counts sample_frame)) < length sample_frame"
proof -
  let ?r = "check_host sample_world ''e.example'' 443 15"
  have h1: "?r \<in> set sample_frame" by (simp add: sample_frame_def)
  have h2: "9999 < filled ?r" by (simp add: filled_def sample_check_e)
  then have h2': "filled ?r \<le> - 999 \<or> 9999 < filled ?r" by (rule disjI2)
  note c = bucket_counts_out_of_range [OF h1 h2']
  show ?thesis by (intro conjI h1 h2 conjunct1 [OF c] conjunct2 [OF c])
qed

end
